theory Spec2Isabelle
  imports Main "HOL-Library.Sublist"
begin

section \<open>The kubetest2 GKE deployer (kubetest2-gke/deployer/deployer.go)\<close>

text \<open>
  A shallow embedding of \<^verbatim>\<open>deployer.go\<close>. A Go string is a list of characters, a Go
  \<^verbatim>\<open>int\<close> is an \<open>int\<close> (the file does no arithmetic on its counters), a slice is a
  list, a \<^verbatim>\<open>nil\<close> error is \<open>None\<close>, and a run-time panic is the \<open>Inl\<close> branch of a sum.
\<close>

subsection \<open>Run-time panics, errors, indexing and slicing\<close>

datatype panic =
    IndexOutOfRange int nat
  | SliceBoundsOutOfRange int nat
  | RegexpMustCompile string

datatype error = Errorf string

text \<open>\<^verbatim>\<open>xs[i]\<close>: panics unless \<open>0 \<le> i < len(xs)\<close>.\<close>

definition elemAt :: "'a list \<Rightarrow> int \<Rightarrow> panic + 'a" where
  "elemAt xs i =
     (if 0 \<le> i \<and> i < int (length xs) then Inr (xs ! nat i)
      else Inl (IndexOutOfRange i (length xs)))"

text \<open>\<^verbatim>\<open>s[0:hi]\<close>: panics unless \<open>0 \<le> hi \<le> len(s)\<close>.\<close>

definition sliceTo :: "string \<Rightarrow> int \<Rightarrow> panic + string" where
  "sliceTo s hi =
     (if 0 \<le> hi \<and> hi \<le> int (length s) then Inr (take (nat hi) s)
      else Inl (SliceBoundsOutOfRange hi (length s)))"

text \<open>
  \<^verbatim>\<open>strings.LastIndex(s, substr)\<close>: the index of the last instance of \<open>substr\<close> in
  \<open>s\<close>, or \<open>-1\<close> when there is none. The candidate positions are tried from the end.
\<close>

definition LastIndex :: "string \<Rightarrow> string \<Rightarrow> int" where
  "LastIndex s substr =
     (case filter (\<lambda>i. prefix substr (drop i s)) (rev [0..<Suc (length s)]) of
        [] \<Rightarrow> - 1
      | i # _ \<Rightarrow> int i)"

subsection \<open>Regular expressions (the part of Go's \<^verbatim>\<open>regexp\<close> the file relies on)\<close>

text \<open>
  The file compiles two patterns with \<^verbatim>\<open>regexp.MustCompile\<close> and hands a list of
  pattern strings to the retry logic. The model covers the syntax those patterns are
  written in: literals, \<^verbatim>\<open>.\<close>, \<^verbatim>\<open>$\<close>, bracket classes with ranges and negation,
  capturing groups, alternation, and the greedy repetitions \<^verbatim>\<open>*\<close>, \<^verbatim>\<open>+\<close> and
  \<^verbatim>\<open>{n}\<close>. Under Go's default (Perl) flags \<^verbatim>\<open>.\<close> matches any character but a
  newline, a negated class does match a newline, and \<^verbatim>\<open>$\<close> matches at the end of the
  text only. All characters the two patterns name are ASCII, so matching characters
  one by one agrees with Go's matching of UTF-8 sequences.
\<close>

datatype regex =
    EmptyMatch
  | Literal char
  | CharClass bool "(char \<times> char) list"
  | AnyCharNotNL
  | EndText
  | Capture nat regex
  | Star regex
  | Plus regex
  | Repeat nat regex
  | Concat regex regex
  | Alternate regex regex

text \<open>
  The parser reads the pattern one character at a time, as \<^verbatim>\<open>regexp/syntax\<close> does,
  with a stack of open groups. A frame holds the finished alternatives of its group,
  the items of the alternative being read (both newest first) and the group's capture
  index. \<open>None\<close> is a compile error; it also stands for syntax outside the part
  modelled here (escapes, \<^verbatim>\<open>?\<close>, \<^verbatim>\<open>^\<close>, \<^verbatim>\<open>{n,m}\<close>, \<^verbatim>\<open>(?...)\<close>, nested brackets).
\<close>

datatype parseMode =
    Normal
  | AfterParen
  | AfterRepeat
  | RepeatCount "nat option"
  | ClassOpen
  | ClassFirst bool
  | ClassItem bool "(char \<times> char) list"
  | ClassLo bool "(char \<times> char) list" char
  | ClassDash bool "(char \<times> char) list" char

type_synonym frame = "regex list \<times> regex list \<times> nat"
type_synonym parseState = "frame list \<times> nat \<times> parseMode"

fun concatOf :: "regex list \<Rightarrow> regex" where
  "concatOf [] = EmptyMatch"
| "concatOf [r] = r"
| "concatOf (r # rs) = Concat r (concatOf rs)"

fun alternateOf :: "regex list \<Rightarrow> regex" where
  "alternateOf [] = EmptyMatch"
| "alternateOf [r] = r"
| "alternateOf (r # rs) = Alternate r (alternateOf rs)"

fun closeFrame :: "frame \<Rightarrow> regex" where
  "closeFrame (alts, items, n) = alternateOf (rev (concatOf (rev items) # alts))"

fun pushItem :: "regex \<Rightarrow> frame list \<Rightarrow> frame list option" where
  "pushItem r [] = None"
| "pushItem r ((alts, items, n) # st) = Some ((alts, r # items, n) # st)"

fun replaceLast :: "(regex \<Rightarrow> regex) \<Rightarrow> frame list \<Rightarrow> frame list option" where
  "replaceLast f ((alts, r # items, n) # st) = Some ((alts, f r # items, n) # st)"
| "replaceLast f st = None"

definition inMode :: "nat \<Rightarrow> parseMode \<Rightarrow> frame list option \<Rightarrow> parseState option" where
  "inMode ncap m st = map_option (\<lambda>s. (s, ncap, m)) st"

definition isDigit :: "char \<Rightarrow> bool" where
  "isDigit c = ((of_char CHR ''0'' :: nat) \<le> of_char c \<and> (of_char c :: nat) \<le> of_char CHR ''9'')"

definition digitVal :: "char \<Rightarrow> nat" where
  "digitVal c = of_char c - of_char CHR ''0''"

definition normalChar :: "frame list \<Rightarrow> nat \<Rightarrow> char \<Rightarrow> parseState option" where
  "normalChar st ncap c =
     (if c = CHR ''('' then Some (([], [], Suc ncap) # st, Suc ncap, AfterParen)
      else if c = CHR '')'' then
        (case st of
           (alts, items, n) # outer # rest \<Rightarrow>
             inMode ncap Normal (pushItem (Capture n (closeFrame (alts, items, n))) (outer # rest))
         | _ \<Rightarrow> None)
      else if c = CHR ''|'' then
        (case st of
           (alts, items, n) # rest \<Rightarrow> Some ((concatOf (rev items) # alts, [], n) # rest, ncap, Normal)
         | [] \<Rightarrow> None)
      else if c = CHR ''*'' then inMode ncap AfterRepeat (replaceLast Star st)
      else if c = CHR ''+'' then inMode ncap AfterRepeat (replaceLast Plus st)
      else if c = CHR ''{'' then inMode ncap (RepeatCount None) (replaceLast (\<lambda>r. r) st)
      else if c = CHR ''['' then Some (st, ncap, ClassOpen)
      else if c = CHR ''.'' then inMode ncap Normal (pushItem AnyCharNotNL st)
      else if c = CHR ''$'' then inMode ncap Normal (pushItem EndText st)
      else if c = CHR ''?'' \<or> c = CHR ''^'' \<or> c = CHR 0x5C then None
      else inMode ncap Normal (pushItem (Literal c) st))"

definition classChar :: "frame list \<Rightarrow> nat \<Rightarrow> bool \<Rightarrow> (char \<times> char) list \<Rightarrow> char \<Rightarrow> parseState option" where
  "classChar st ncap negated ranges c =
     (if c = CHR '']'' then inMode ncap Normal (pushItem (CharClass negated ranges) st)
      else if c = CHR 0x5C \<or> c = CHR ''['' then None
      else Some (st, ncap, ClassLo negated ranges c))"

fun parseChar :: "parseState \<Rightarrow> char \<Rightarrow> parseState option" where
  "parseChar (st, ncap, Normal) c = normalChar st ncap c"
| "parseChar (st, ncap, AfterParen) c = (if c = CHR ''?'' then None else normalChar st ncap c)"
| "parseChar (st, ncap, AfterRepeat) c =
     (if c = CHR ''?'' \<or> c = CHR ''*'' \<or> c = CHR ''+'' \<or> c = CHR ''{'' then None
      else normalChar st ncap c)"
| "parseChar (st, ncap, RepeatCount None) c =
     (if isDigit c then Some (st, ncap, RepeatCount (Some (digitVal c))) else None)"
| "parseChar (st, ncap, RepeatCount (Some k)) c =
     (if c = CHR ''}'' then inMode ncap AfterRepeat (replaceLast (Repeat k) st)
      else if isDigit c \<and> k \<noteq> 0 \<and> 10 * k + digitVal c \<le> 1000
        then Some (st, ncap, RepeatCount (Some (10 * k + digitVal c)))
      else None)"
| "parseChar (st, ncap, ClassOpen) c =
     (if c = CHR ''^'' then Some (st, ncap, ClassFirst True)
      else if c = CHR 0x5C \<or> c = CHR ''['' then None
      else Some (st, ncap, ClassLo False [] c))"
| "parseChar (st, ncap, ClassFirst negated) c =
     (if c = CHR 0x5C \<or> c = CHR ''['' then None
      else Some (st, ncap, ClassLo negated [] c))"
| "parseChar (st, ncap, ClassItem negated ranges) c = classChar st ncap negated ranges c"
| "parseChar (st, ncap, ClassLo negated ranges lo) c =
     (if c = CHR ''-'' then Some (st, ncap, ClassDash negated ranges lo)
      else classChar st ncap negated (ranges @ [(lo, lo)]) c)"
| "parseChar (st, ncap, ClassDash negated ranges lo) c =
     (if c = CHR '']'' then
        inMode ncap Normal (pushItem (CharClass negated (ranges @ [(lo, lo), (CHR ''-'', CHR ''-'')])) st)
      else if c = CHR 0x5C \<or> c = CHR ''['' then None
      else if (of_char c :: nat) < of_char lo then None
      else Some (st, ncap, ClassItem negated (ranges @ [(lo, c)])))"

fun parseFrom :: "parseState \<Rightarrow> string \<Rightarrow> parseState option" where
  "parseFrom ps [] = Some ps"
| "parseFrom ps (c # s) = (case parseChar ps c of None \<Rightarrow> None | Some ps' \<Rightarrow> parseFrom ps' s)"

fun parseEnd :: "parseState \<Rightarrow> regex option" where
  "parseEnd ([f], ncap, Normal) = Some (closeFrame f)"
| "parseEnd ([f], ncap, AfterRepeat) = Some (closeFrame f)"
| "parseEnd ps = None"

definition Compile :: "string \<Rightarrow> regex option" where
  "Compile expr =
     (case parseFrom ([([], [], 0)], 0, Normal) expr of
        None \<Rightarrow> None
      | Some ps \<Rightarrow> parseEnd ps)"

text \<open>
  Matching follows Go's leftmost-first rule: among the matches that start earliest, the
  one a backtracking search finds first. A thread is the input still to be read together
  with the captures made so far; \<open>threads re t\<close> lists, in the order a backtracking
  search would reach them, the threads left after \<open>re\<close> has matched at \<open>t\<close>.
  A repetition prefers one more iteration, and an iteration that reads nothing is not
  repeated.
\<close>

type_synonym thread = "string \<times> (nat \<rightharpoonup> string)"

definition inClass :: "bool \<Rightarrow> (char \<times> char) list \<Rightarrow> char \<Rightarrow> bool" where
  "inClass negated ranges c =
     (list_ex (\<lambda>(lo, hi). (of_char lo :: nat) \<le> of_char c \<and> (of_char c :: nat) \<le> of_char hi) ranges
        \<noteq> negated)"

fun consume :: "(char \<Rightarrow> bool) \<Rightarrow> thread \<Rightarrow> thread list" where
  "consume P ([], caps) = []"
| "consume P (c # s, caps) = (if P c then [(s, caps)] else [])"

definition andThen :: "(thread \<Rightarrow> thread list) \<Rightarrow> (thread \<Rightarrow> thread list) \<Rightarrow> thread \<Rightarrow> thread list" where
  "andThen f g t = concat (map g (f t))"

function star :: "(thread \<Rightarrow> thread list) \<Rightarrow> thread \<Rightarrow> thread list" where
  "star f t =
     concat (map (\<lambda>t'. if length (fst t') < length (fst t) then star f t' else []) (f t)) @ [t]"
  by pat_completeness auto
termination
  by (relation "measure (\<lambda>(f, t). length (fst t))") auto

primrec threads :: "regex \<Rightarrow> thread \<Rightarrow> thread list" where
  "threads EmptyMatch = (\<lambda>t. [t])"
| "threads (Literal c) = consume (\<lambda>x. x = c)"
| "threads (CharClass negated ranges) = consume (inClass negated ranges)"
| "threads AnyCharNotNL = consume (\<lambda>x. x \<noteq> CHR 0x0A)"
| "threads EndText = (\<lambda>t. if fst t = [] then [t] else [])"
| "threads (Capture n r) =
     (\<lambda>t. map (\<lambda>(s', caps'). (s', caps'(n \<mapsto> take (length (fst t) - length s') (fst t))))
            (threads r t))"
| "threads (Star r) = star (threads r)"
| "threads (Plus r) = andThen (threads r) (star (threads r))"
| "threads (Repeat n r) = ((andThen (threads r)) ^^ n) (\<lambda>t. [t])"
| "threads (Concat r1 r2) = andThen (threads r1) (threads r2)"
| "threads (Alternate r1 r2) = (\<lambda>t. threads r1 t @ threads r2 t)"

primrec NumSubexp :: "regex \<Rightarrow> nat" where
  "NumSubexp EmptyMatch = 0"
| "NumSubexp (Literal c) = 0"
| "NumSubexp (CharClass negated ranges) = 0"
| "NumSubexp AnyCharNotNL = 0"
| "NumSubexp EndText = 0"
| "NumSubexp (Capture n r) = max n (NumSubexp r)"
| "NumSubexp (Star r) = NumSubexp r"
| "NumSubexp (Plus r) = NumSubexp r"
| "NumSubexp (Repeat n r) = NumSubexp r"
| "NumSubexp (Concat r1 r2) = max (NumSubexp r1) (NumSubexp r2)"
| "NumSubexp (Alternate r1 r2) = max (NumSubexp r1) (NumSubexp r2)"

text \<open>
  \<^verbatim>\<open>re.FindStringSubmatch(s)\<close>: the leftmost match of \<open>re\<close> in \<open>s\<close> and the text of
  each capture group (empty for a group that took no part), or \<^verbatim>\<open>nil\<close> (\<open>None\<close>)
  when there is no match. The start positions are tried from the left, the end of the
  text included; \<open>submatches\<close> is the slice returned for the first thread found.
\<close>

definition submatches :: "regex \<Rightarrow> string \<Rightarrow> thread \<Rightarrow> string list" where
  "submatches re s t =
     take (length s - length (fst t)) s #
     map (\<lambda>i. case snd t i of None \<Rightarrow> [] | Some m \<Rightarrow> m) [1..<Suc (NumSubexp re)]"

fun FindStringSubmatch :: "regex \<Rightarrow> string \<Rightarrow> string list option" where
  "FindStringSubmatch re [] =
     (case threads re ([], Map.empty) of
        t # _ \<Rightarrow> Some (submatches re [] t)
      | [] \<Rightarrow> None)"
| "FindStringSubmatch re (c # s) =
     (case threads re (c # s, Map.empty) of
        t # _ \<Rightarrow> Some (submatches re (c # s) t)
      | [] \<Rightarrow> FindStringSubmatch re s)"

text \<open>\<^verbatim>\<open>re.MatchString(s)\<close>: whether \<open>s\<close> contains any match of \<open>re\<close>.\<close>

definition MatchString :: "regex \<Rightarrow> string \<Rightarrow> bool" where
  "MatchString re s = (FindStringSubmatch re s \<noteq> None)"

text \<open>\<^verbatim>\<open>regexp.MustCompile(expr)\<close>: like \<open>Compile\<close>, but panics on an error.\<close>

definition MustCompile :: "string \<Rightarrow> panic + regex" where
  "MustCompile expr =
     (case Compile expr of
        None \<Rightarrow> Inl (RegexpMustCompile expr)
      | Some re \<Rightarrow> Inr re)"

subsection \<open>Location flags\<close>

text \<open>
  \<^verbatim>\<open>func locationFlag(regions, zones []string, retryCount int) string\<close>
\<close>

definition locationFlag :: "string list \<Rightarrow> string list \<Rightarrow> int \<Rightarrow> panic + string" where
  "locationFlag regions zones retryCount =
     (if length zones \<noteq> 0 then
        (case elemAt zones retryCount of
           Inl p \<Rightarrow> Inl p
         | Inr z \<Rightarrow> Inr (''--zone='' @ z))
      else
        (case elemAt regions retryCount of
           Inl p \<Rightarrow> Inl p
         | Inr r \<Rightarrow> Inr (''--region='' @ r)))"

text \<open>
  \<^verbatim>\<open>func regionFromLocation(regions, zones []string, retryCount int) string\<close>
\<close>

definition regionFromLocation :: "string list \<Rightarrow> string list \<Rightarrow> int \<Rightarrow> panic + string" where
  "regionFromLocation regions zones retryCount =
     (if length zones \<noteq> 0 then
        (case elemAt zones retryCount of
           Inl p \<Rightarrow> Inl p
         | Inr zone \<Rightarrow> sliceTo zone (LastIndex zone ''-''))
      else elemAt regions retryCount)"

subsection \<open>Package-level declarations\<close>

definition Name :: string where
  "Name = ''gke''"

definition e2eAllow :: string where
  "e2eAllow = ''tcp:22,tcp:80,tcp:8080,tcp:30000-32767,udp:30000-32767''"

definition defaultImage :: string where
  "defaultImage = ''cos''"

definition gceStockoutErrorPattern :: string where
  "gceStockoutErrorPattern = ''.*does not have enough resources available to fulfill.*''"

text \<open>
  \<^verbatim>\<open>poolRe\<close> is compiled when the package is initialised; a pattern that does not compile
  would panic there.
\<close>

definition poolRe :: "panic + regex" where
  "poolRe = MustCompile ''zones/([^/]+)/instanceGroupManagers/(gk[e|3]-.*-([0-9a-f]{8})-grp)$''"

definition urlRe :: "panic + regex" where
  "urlRe = MustCompile ''https://.*/''"

record gkeNodePool =
  Nodes :: int
  MachineType :: string

definition defaultNodePool :: gkeNodePool where
  "defaultNodePool = \<lparr>Nodes = 3, MachineType = ''n1-standard-2''\<rparr>"

definition defaultWindowsNodePool :: gkeNodePool where
  "defaultWindowsNodePool = \<lparr>Nodes = 1, MachineType = ''n1-standard-2''\<rparr>"

record ig =
  path :: string
  zone :: string
  name :: string
  uniq :: string

record cluster =
  index :: int
  name :: string

text \<open>
  The package's other files declare the constants below; \<^verbatim>\<open>New\<close> only reads them, so
  they are parameters of the model.
\<close>

record packageConstants =
  WindowsImageTypeLTSC :: string
  defaultBoskosLocation :: string
  defaultGKEProjectResourceType :: string
  defaultBoskosAcquireTimeoutSeconds :: int
  defaultBoskosHeartbeatIntervalSeconds :: int

definition defaultWindowsImage :: "packageConstants \<Rightarrow> string" where
  "defaultWindowsImage pkg = WindowsImageTypeLTSC pkg"

subsection \<open>The deployer\<close>

text \<open>The option structs, with the fields this file sets or reads.\<close>

datatype builder = NoopBuilder
datatype stager = NoopStager

record buildOptions =
  Builder :: builder
  Stager :: stager
  Strategy :: string

record BuildOptions =
  CommonBuildOptions :: buildOptions

record CommonOptions =
  Network :: string
  Environment :: string

record UpOptions =
  NumClusters :: int
  NumNodes :: int
  MachineType :: string
  ImageType :: string
  WindowsNumNodes :: int
  WindowsMachineType :: string
  WindowsImageType :: string
  Version :: string
  GCPSSHKeyIgnored :: bool
  BoskosLocation :: string
  BoskosResourceType :: string
  BoskosAcquireTimeoutSeconds :: int
  BoskosHeartbeatIntervalSeconds :: int
  BoskosProjectsRequested :: int
  RetryableErrorPatterns :: "string list"
  Zones :: "string list"
  Regions :: "string list"

text \<open>\<^verbatim>\<open>types.Options\<close>, of which \<^verbatim>\<open>New\<close> calls \<^verbatim>\<open>RunDir()\<close>.\<close>

record Options =
  RunDir :: string

text \<open>
  The \<^verbatim>\<open>Deployer\<close> struct. The \<^verbatim>\<open>sync.Once\<close>, the Boskos client pointer and the
  heartbeat channel carry no data this file reads and are left out; a \<^verbatim>\<open>nil\<close> map is
  the empty map.
\<close>

record Deployer =
  kubetest2CommonOptions :: Options
  BuildOptions :: BuildOptions
  CommonOptions :: CommonOptions
  UpOptions :: UpOptions
  projectClustersLayout :: "string \<rightharpoonup> cluster list"
  instanceGroups :: "string \<rightharpoonup> (string \<rightharpoonup> ig list)"
  kubecfgPath :: string
  testPrepared :: bool
  localLogsDir :: string
  gcsLogsDir :: string
  totalTryCount :: int
  retryCount :: int
  retryableErrorPatternsCompiled :: "regex list"
  subnetworkRangesInternal :: "string list list"
  privateClusterMasterIPRangesInternal :: "string list list"

text \<open>\<^verbatim>\<open>func (d *Deployer) Provider() string\<close>\<close>

definition Provider :: "Deployer \<Rightarrow> string" where
  "Provider d = Name"

text \<open>
  \<^verbatim>\<open>func New(opts types.Options) (types.Deployer, *pflag.FlagSet)\<close>: the deployer it
  builds. \<open>join\<close> is \<^verbatim>\<open>filepath.Join\<close>; the fields the struct literal does not name
  have their zero values. The flag set bound to the deployer is not modelled.
\<close>

definition New :: "packageConstants \<Rightarrow> (string \<Rightarrow> string \<Rightarrow> string) \<Rightarrow> Options \<Rightarrow> Deployer" where
  "New pkg join opts =
     \<lparr> kubetest2CommonOptions = opts,
       BuildOptions = \<lparr> CommonBuildOptions =
         \<lparr> Builder = NoopBuilder, Stager = NoopStager, Strategy = ''make'' \<rparr> \<rparr>,
       CommonOptions = \<lparr> Network = ''default'', Environment = ''prod'' \<rparr>,
       UpOptions =
         \<lparr> NumClusters = 1,
           NumNodes = Nodes defaultNodePool,
           MachineType = gkeNodePool.MachineType defaultNodePool,
           ImageType = defaultImage,
           WindowsNumNodes = Nodes defaultWindowsNodePool,
           WindowsMachineType = gkeNodePool.MachineType defaultWindowsNodePool,
           WindowsImageType = defaultWindowsImage pkg,
           Version = '''',
           GCPSSHKeyIgnored = True,
           BoskosLocation = defaultBoskosLocation pkg,
           BoskosResourceType = defaultGKEProjectResourceType pkg,
           BoskosAcquireTimeoutSeconds = defaultBoskosAcquireTimeoutSeconds pkg,
           BoskosHeartbeatIntervalSeconds = defaultBoskosHeartbeatIntervalSeconds pkg,
           BoskosProjectsRequested = 1,
           RetryableErrorPatterns = [gceStockoutErrorPattern],
           Zones = [],
           Regions = [] \<rparr>,
       projectClustersLayout = Map.empty,
       instanceGroups = Map.empty,
       kubecfgPath = '''',
       testPrepared = False,
       localLogsDir = join (RunDir opts) ''logs'',
       gcsLogsDir = '''',
       totalTryCount = 0,
       retryCount = 0,
       retryableErrorPatternsCompiled = [],
       subnetworkRangesInternal = [],
       privateClusterMasterIPRangesInternal = [] \<rparr>"

text \<open>
  \<^verbatim>\<open>func (d *Deployer) VerifyLocationFlags() error\<close>: the error returned (\<open>None\<close> for
  \<^verbatim>\<open>nil\<close>) and the deployer after the call. The method has a pointer receiver and
  writes no field.
\<close>

definition VerifyLocationFlags :: "Deployer \<Rightarrow> error option \<times> Deployer" where
  "VerifyLocationFlags d =
     (if length (Zones (UpOptions d)) = 0 \<and> length (Regions (UpOptions d)) = 0 then
        (Some (Errorf ''--zone or --region must be set for GKE deployment''), d)
      else if length (Zones (UpOptions d)) \<noteq> 0 \<and> length (Regions (UpOptions d)) \<noteq> 0 then
        (Some (Errorf ''--zone and --region cannot both be set''), d)
      else (None, d))"

subsection \<open>The error classifier and the retry loop\<close>

text \<open>
  Modelled from the spec: the compilation of the configured pattern strings into
  \<^verbatim>\<open>retryableErrorPatternsCompiled\<close>, which \<^verbatim>\<open>deployer.go\<close> declares and another file
  of the package fills. Every configured pattern is compiled; a pattern that does not
  compile is an error.
\<close>

fun compilePatterns :: "string list \<Rightarrow> regex list option" where
  "compilePatterns [] = Some []"
| "compilePatterns (p # ps) =
     (case Compile p of
        None \<Rightarrow> None
      | Some re \<Rightarrow> (case compilePatterns ps of None \<Rightarrow> None | Some res \<Rightarrow> Some (re # res)))"

text \<open>
  Modelled from the spec: \<^verbatim>\<open>ErrorClassifier.isRetryable\<close>, whose code is not in
  \<^verbatim>\<open>deployer.go\<close>. The error text is retryable when it matches any compiled pattern of
  the configured set, by regular-expression search.
\<close>

fun isRetryable :: "regex list \<Rightarrow> string \<Rightarrow> bool" where
  "isRetryable [] errorText = False"
| "isRetryable (re # res) errorText =
     (if MatchString re errorText then True else isRetryable res errorText)"

text \<open>
  Modelled from the spec: the provisioning orchestrator's state machine for one
  requested cluster, whose code is not in \<^verbatim>\<open>deployer.go\<close> (the file declares its
  counters \<^verbatim>\<open>totalTryCount\<close> and \<^verbatim>\<open>retryCount\<close>). The location flags are validated once
  before any attempt. An attempt calls the cluster-creation collaborator with the
  location flag of the current attempt index; on a failure that is retryable, with
  \<open>attemptIndex + 1 < totalTryCount\<close> and another candidate location left, the index
  is incremented and the next location is attempted; any other failure ends the run in
  \<open>Exhausted\<close> with the collaborator's error text unchanged.

  The collaborator is a parameter: given the attempt index and the location flag it
  returns \<open>None\<close> on success or the error text of the failure.
\<close>

datatype orchestratorState =
    Pending
  | Attempting
  | Succeeded
  | Exhausted string
  | LocationConfigError error
  | Panicked panic

type_synonym collaborator = "int \<Rightarrow> string \<Rightarrow> string option"

definition candidates :: "Deployer \<Rightarrow> string list" where
  "candidates d =
     (if length (Zones (UpOptions d)) \<noteq> 0 then Zones (UpOptions d) else Regions (UpOptions d))"

definition initial :: "Deployer \<Rightarrow> Deployer \<times> orchestratorState" where
  "initial d = (d\<lparr>retryCount := 0\<rparr>, Pending)"

fun orchestratorStep :: "collaborator \<Rightarrow> Deployer \<times> orchestratorState \<Rightarrow> Deployer \<times> orchestratorState" where
  "orchestratorStep create (d, Pending) =
     (case VerifyLocationFlags d of
        (Some e, d') \<Rightarrow> (d', LocationConfigError e)
      | (None, d') \<Rightarrow> (d', Attempting))"
| "orchestratorStep create (d, Attempting) =
     (case locationFlag (Regions (UpOptions d)) (Zones (UpOptions d)) (retryCount d) of
        Inl p \<Rightarrow> (d, Panicked p)
      | Inr location \<Rightarrow>
          (case create (retryCount d) location of
             None \<Rightarrow> (d, Succeeded)
           | Some errorText \<Rightarrow>
               if isRetryable (retryableErrorPatternsCompiled d) errorText
                  \<and> retryCount d + 1 < totalTryCount d
                  \<and> retryCount d + 1 < int (length (candidates d))
               then (d\<lparr>retryCount := retryCount d + 1\<rparr>, Attempting)
               else (d, Exhausted errorText)))"
| "orchestratorStep create (d, Succeeded) = (d, Succeeded)"
| "orchestratorStep create (d, Exhausted errorText) = (d, Exhausted errorText)"
| "orchestratorStep create (d, LocationConfigError e) = (d, LocationConfigError e)"
| "orchestratorStep create (d, Panicked p) = (d, Panicked p)"

text \<open>The configuration after \<open>n\<close> steps of a run that starts at \<open>d\<close>.\<close>

definition runSteps :: "collaborator \<Rightarrow> nat \<Rightarrow> Deployer \<Rightarrow> Deployer \<times> orchestratorState" where
  "runSteps create n d = (orchestratorStep create ^^ n) (initial d)"

section \<open>Properties\<close>

subsection \<open>Helper facts\<close>

declare star.simps [simp del]

lemma LastIndex_absent:
  assumes "c \<notin> set s"
  shows "LastIndex s [c] = - 1"
proof -
  have "\<not> prefix [c] (drop i s)" for i
  proof
    assume "prefix [c] (drop i s)"
    then have "c \<in> set (drop i s)"
      by (auto simp: prefix_def)
    then have "c \<in> set s"
      by (rule in_set_dropD)
    with assms show False by simp
  qed
  then have "filter (\<lambda>i. prefix [c] (drop i s)) (rev [0..<Suc (length s)]) = []"
    by (simp add: filter_empty_conv)
  then show ?thesis
    by (simp add: LastIndex_def)
qed

lemma filter_rev_upt_last:
  assumes "k < n" and "P k" and "\<And>i. k < i \<Longrightarrow> i < n \<Longrightarrow> \<not> P i"
  shows "filter P (rev [0..<n]) = k # filter P (rev [0..<k])"
proof -
  have split: "[0..<n] = [0..<k] @ k # [Suc k..<n]"
    using assms(1) by (metis less_imp_le_nat upt_add_eq_append upt_conv_Cons zero_le
        le_add_diff_inverse)
  have "filter P [Suc k..<n] = []"
    using assms(3) by (auto simp: filter_empty_conv)
  then show ?thesis
    using assms(2) by (simp add: split rev_filter [symmetric])
qed

lemma LastIndex_last_occurrence:
  assumes "c \<notin> set sfx"
  shows "LastIndex (pre @ c # sfx) [c] = int (length pre)"
proof -
  let ?s = "pre @ c # sfx"
  let ?P = "\<lambda>i. prefix [c] (drop i ?s)"
  have here: "?P (length pre)"
    by simp
  have later: "\<not> ?P i" if "length pre < i" for i
  proof
    assume p: "?P i"
    from that obtain j where i: "i = Suc (length pre + j)"
      using less_iff_Suc_add by auto
    have d: "drop i ?s = drop (i - Suc (length pre)) sfx"
      by (simp add: i)
    from p obtain zs where "drop (i - Suc (length pre)) sfx = c # zs"
      unfolding d by (auto simp: prefix_def)
    then have "c \<in> set (drop (i - Suc (length pre)) sfx)"
      by simp
    then have "c \<in> set sfx"
      by (rule in_set_dropD)
    with assms show False by simp
  qed
  have "filter ?P (rev [0..<Suc (length ?s)])
      = length pre # filter ?P (rev [0..<length pre])"
    by (rule filter_rev_upt_last) (use here later in auto)
  then show ?thesis
    by (simp add: LastIndex_def)
qed


text \<open>The two patterns of the file compile, to these programs.\<close>

lemma poolRe_compiled:
  "poolRe = Inr (concatOf (map Literal ''zones/'' @
       Capture 1 (Plus (CharClass True [(CHR ''/'', CHR ''/'')])) #
       map Literal ''/instanceGroupManagers/'' @
       [Capture 2 (concatOf (map Literal ''gk'' @
          CharClass False [(CHR ''e'', CHR ''e''), (CHR ''|'', CHR ''|''), (CHR ''3'', CHR ''3'')] #
          Literal CHR ''-'' # Star AnyCharNotNL # Literal CHR ''-'' #
          Capture 3 (Repeat 8 (CharClass False [(CHR ''0'', CHR ''9''), (CHR ''a'', CHR ''f'')])) #
          map Literal ''-grp'')),
        EndText]))"
  by code_simp

lemma stockout_compiled:
  "Compile gceStockoutErrorPattern =
     Some (concatOf (Star AnyCharNotNL #
       map Literal ''does not have enough resources available to fulfill'' @ [Star AnyCharNotNL]))"
  by code_simp

text \<open>A thread only ever loses input from the front.\<close>

lemma set_andThen: "set (andThen f g t) = (\<Union>t' \<in> set (f t). set (g t'))"
  by (simp add: andThen_def)

lemma andThen_empty_iff: "andThen f g t = [] \<longleftrightarrow> (\<forall>t' \<in> set (f t). g t' = [])"
  by (simp add: andThen_def)

lemma consume_suffix: "t' \<in> set (consume P t) \<Longrightarrow> suffix (fst t') (fst t)"
  by (cases "(P, t)" rule: consume.cases) (auto simp: suffix_def split: if_splits)

lemma star_suffix:
  "(\<forall>t t'. t' \<in> set (f t) \<longrightarrow> suffix (fst t') (fst t)) \<Longrightarrow>
   t' \<in> set (star f t) \<Longrightarrow> suffix (fst t') (fst t)"
proof (induction f t arbitrary: t' rule: star.induct)
  case (1 f t)
  from "1.prems"(2)
  have "t' = t \<or> (\<exists>u \<in> set (f t). length (fst u) < length (fst t) \<and> t' \<in> set (star f u))"
    by (subst (asm) star.simps) (auto split: if_splits)
  then show ?case
  proof
    assume "t' = t"
    then show ?thesis by simp
  next
    assume "\<exists>u \<in> set (f t). length (fst u) < length (fst t) \<and> t' \<in> set (star f u)"
    then obtain u where u: "u \<in> set (f t)" "length (fst u) < length (fst t)" "t' \<in> set (star f u)"
      by blast
    have "suffix (fst t') (fst u)"
      using "1.IH" [OF u(1) u(2) "1.prems"(1) u(3)] .
    moreover have "suffix (fst u) (fst t)"
      using "1.prems"(1) u(1) by blast
    ultimately show ?thesis
      by (rule suffix_order.trans)
  qed
qed

lemma andThen_suffix:
  assumes f: "\<forall>t t'. t' \<in> set (f t) \<longrightarrow> suffix (fst t') (fst t)"
    and g: "\<forall>t t'. t' \<in> set (g t) \<longrightarrow> suffix (fst t') (fst t)"
    and t': "t' \<in> set (andThen f g t)"
  shows "suffix (fst t') (fst t)"
proof -
  from t' obtain u where u: "u \<in> set (f t)" "t' \<in> set (g u)"
    unfolding set_andThen by blast
  have "suffix (fst t') (fst u)"
    using g u(2) by blast
  moreover have "suffix (fst u) (fst t)"
    using f u(1) by blast
  ultimately show ?thesis
    by (rule suffix_order.trans)
qed

lemma funpow_andThen_suffix:
  assumes f: "\<forall>t t'. t' \<in> set (f t) \<longrightarrow> suffix (fst t') (fst t)"
  shows "\<forall>t t'. t' \<in> set (((andThen f) ^^ n) (\<lambda>t. [t]) t) \<longrightarrow> suffix (fst t') (fst t)"
proof (induction n)
  case 0
  then show ?case by simp
next
  case (Suc n)
  show ?case
  proof (intro allI impI)
    fix t t' :: thread
    assume "t' \<in> set (((andThen f) ^^ Suc n) (\<lambda>t. [t]) t)"
    then have "t' \<in> set (andThen f (((andThen f) ^^ n) (\<lambda>t. [t])) t)"
      by simp
    then show "suffix (fst t') (fst t)"
      by (rule andThen_suffix [OF f Suc.IH])
  qed
qed

lemma threads_suffix_all: "\<forall>t t'. t' \<in> set (threads r t) \<longrightarrow> suffix (fst t') (fst t)"
proof (induction r)
  case EmptyMatch
  show ?case by simp
next
  case (Literal c)
  show ?case by (auto dest: consume_suffix)
next
  case (CharClass negated ranges)
  show ?case by (auto dest: consume_suffix)
next
  case AnyCharNotNL
  show ?case by (auto dest: consume_suffix)
next
  case EndText
  show ?case by (auto split: if_splits)
next
  case (Capture n r)
  have "fst t' \<in> fst ` set (threads r t)" if "t' \<in> set (threads (Capture n r) t)" for t t'
    using that by (force simp: case_prod_beta)
  then show ?case
    using Capture.IH by (metis (no_types, lifting) imageE)
next
  case (Star r)
  show ?case
    using star_suffix [OF Star.IH] by simp
next
  case (Plus r)
  have "\<forall>t t'. t' \<in> set (star (threads r) t) \<longrightarrow> suffix (fst t') (fst t)"
    using star_suffix [OF Plus.IH] by blast
  then show ?case
    using andThen_suffix [OF Plus.IH] by simp
next
  case (Repeat n r)
  show ?case
    using funpow_andThen_suffix [OF Repeat.IH] by simp
next
  case (Concat r1 r2)
  show ?case
    using andThen_suffix [OF Concat.IH] by simp
next
  case (Alternate r1 r2)
  then show ?case by (metis Un_iff set_append threads.simps(11))
qed

lemma threads_suffix: "t' \<in> set (threads r t) \<Longrightarrow> suffix (fst t') (fst t)"
  using threads_suffix_all by blast

text \<open>A run of literals matches exactly a prefix of the input.\<close>

lemma threads_literals:
  "threads (concatOf (map Literal w @ r # rs)) (s, caps) =
     (if prefix w s then threads (concatOf (r # rs)) (drop (length w) s, caps) else [])"
proof (induction w arbitrary: s)
  case Nil
  then show ?case by simp
next
  case (Cons c w)
  have shape: "concatOf (map Literal (c # w) @ r # rs)
      = Concat (Literal c) (concatOf (map Literal w @ r # rs))"
    by (cases w) simp_all
  show ?case
    unfolding shape using Cons.IH
    by (cases s) (simp_all add: andThen_def)
qed

lemma star_self: "t \<in> set (star f t)"
  by (subst star.simps) simp

text \<open>The search fails exactly when no start position has a thread.\<close>

lemma FindStringSubmatch_None_iff:
  "FindStringSubmatch re s = None \<longleftrightarrow> (\<forall>s'. suffix s' s \<longrightarrow> threads re (s', Map.empty) = [])"
proof (induction s)
  case Nil
  then show ?case by (auto split: list.splits)
next
  case (Cons c s)
  show ?case
    by (auto simp: Cons.IH suffix_Cons split: list.splits)
qed


lemma threads_concatOf_cons:
  "rs \<noteq> [] \<Longrightarrow> threads (concatOf (r # rs)) = andThen (threads r) (threads (concatOf rs))"
  by (cases rs) simp_all

lemma threads_literals_prefix:
  assumes "threads (concatOf (map Literal w @ r # rs)) t \<noteq> []"
  shows "prefix w (fst t)"
  using assms threads_literals [of w r rs "fst t" "snd t"] by (simp split: if_splits)

lemma sublist_via_thread:
  assumes "suffix s' s" and "prefix w s'"
  shows "sublist w s"
  using assms sublist_altdef' by blast

lemma poolRe_needs_segment:
  assumes "threads (concatOf (map Literal w @ r1 # map Literal seg @ r2 # rs)) (s, caps) \<noteq> []"
  shows "sublist seg s"
proof -
  let ?rest = "map Literal seg @ r2 # rs"
  from assms have "threads (concatOf (r1 # ?rest)) (drop (length w) s, caps) \<noteq> []"
    using threads_literals [of w r1 ?rest s caps] by (simp split: if_splits)
  then have "andThen (threads r1) (threads (concatOf ?rest)) (drop (length w) s, caps) \<noteq> []"
    by (simp add: threads_concatOf_cons)
  then obtain u where u: "u \<in> set (threads r1 (drop (length w) s, caps))"
      and ne: "threads (concatOf ?rest) u \<noteq> []"
    unfolding andThen_empty_iff by blast
  from ne have "prefix seg (fst u)"
    by (rule threads_literals_prefix)
  moreover have "suffix (fst u) s"
    using threads_suffix [OF u] by (auto intro: suffix_order.trans suffix_drop)
  ultimately show ?thesis
    by (rule sublist_via_thread [rotated])
qed

lemma no_segment_no_match:
  assumes "\<not> sublist seg url"
  shows "FindStringSubmatch (concatOf (map Literal w @ r1 # map Literal seg @ r2 # rs)) url = None"
proof -
  let ?re = "concatOf (map Literal w @ r1 # map Literal seg @ r2 # rs)"
  have "threads ?re (s', Map.empty) = []" if "suffix s' url" for s'
  proof (rule ccontr)
    assume "threads ?re (s', Map.empty) \<noteq> []"
    then have "sublist seg s'"
      by (rule poolRe_needs_segment)
    with that have "sublist seg url"
      by (meson sublist_order.order.trans suffix_imp_sublist)
    with assms show False by simp
  qed
  then show ?thesis
    by (simp add: FindStringSubmatch_None_iff)
qed

lemma star_nonempty: "star f t \<noteq> []"
  using star_self [of t f] by auto

lemma stockout_matches:
  assumes "sublist w text"
  shows "FindStringSubmatch (concatOf (Star AnyCharNotNL # map Literal w @ [Star AnyCharNotNL])) text \<noteq> None"
proof -
  let ?tail = "concatOf (map Literal w @ [Star AnyCharNotNL])"
  from assms obtain ps ss where decomp: "text = ps @ w @ ss"
    by (auto simp: sublist_def)
  have "threads ?tail (w @ ss, Map.empty) = star (threads AnyCharNotNL) (ss, Map.empty)"
    by (simp only: threads_literals) simp
  then have tail: "threads ?tail (w @ ss, Map.empty) \<noteq> []"
    by (simp add: star_nonempty)
  have "(w @ ss, Map.empty) \<in> set (threads (Star AnyCharNotNL) (w @ ss, Map.empty))"
    by (simp add: star_self)
  with tail have "andThen (threads (Star AnyCharNotNL)) (threads ?tail) (w @ ss, Map.empty) \<noteq> []"
    unfolding andThen_empty_iff by blast
  then have "threads (concatOf (Star AnyCharNotNL # map Literal w @ [Star AnyCharNotNL]))
      (w @ ss, Map.empty) \<noteq> []"
    by (simp add: threads_concatOf_cons)
  moreover have "suffix (w @ ss) text"
    by (simp add: decomp suffix_def)
  ultimately show ?thesis
    unfolding FindStringSubmatch_None_iff by blast
qed

lemma stockout_only_matches:
  assumes "FindStringSubmatch (concatOf (Star AnyCharNotNL # map Literal w @ [Star AnyCharNotNL])) text \<noteq> None"
  shows "sublist w text"
proof -
  let ?tail = "concatOf (map Literal w @ [Star AnyCharNotNL])"
  from assms obtain s' where s': "suffix s' text"
      and ne: "threads (concatOf (Star AnyCharNotNL # map Literal w @ [Star AnyCharNotNL]))
        (s', Map.empty) \<noteq> []"
    unfolding FindStringSubmatch_None_iff by blast
  from ne have "andThen (threads (Star AnyCharNotNL)) (threads ?tail) (s', Map.empty) \<noteq> []"
    by (simp add: threads_concatOf_cons)
  then obtain u where u: "u \<in> set (threads (Star AnyCharNotNL) (s', Map.empty))"
      and tail: "threads ?tail u \<noteq> []"
    unfolding andThen_empty_iff by blast
  from tail have "prefix w (fst u)"
    by (rule threads_literals_prefix)
  moreover have "suffix (fst u) text"
    using threads_suffix [OF u] s' by (auto intro: suffix_order.trans)
  ultimately show ?thesis
    by (rule sublist_via_thread [rotated])
qed

lemma isRetryable_iff: "isRetryable res errorText \<longleftrightarrow> (\<exists>re \<in> set res. MatchString re errorText)"
  by (induction res) auto


text \<open>What a successful match leaves in capture group 3.\<close>

lemma threads_concatOf_Cons:
  "threads (concatOf (r # rs)) t = andThen (threads r) (threads (concatOf rs)) t"
  by (cases rs) (simp_all add: andThen_def)

lemma concatOf_preserves:
  assumes "\<forall>r \<in> set rs. \<forall>t t'. t' \<in> set (threads r t) \<longrightarrow> Q t \<longrightarrow> Q t'"
  shows "t' \<in> set (threads (concatOf rs) t) \<Longrightarrow> Q t \<Longrightarrow> Q t'"
  using assms
proof (induction rs arbitrary: t)
  case Nil
  then show ?case by simp
next
  case (Cons r rs)
  from Cons.prems(1) obtain u where u: "u \<in> set (threads r t)" "t' \<in> set (threads (concatOf rs) u)"
    unfolding threads_concatOf_Cons set_andThen by blast
  from Cons.prems(3) have "\<forall>t t'. t' \<in> set (threads r t) \<longrightarrow> Q t \<longrightarrow> Q t'"
    by simp
  with u(1) Cons.prems(2) have "Q u"
    by blast
  moreover from Cons.prems(3)
  have "\<forall>r \<in> set rs. \<forall>t t'. t' \<in> set (threads r t) \<longrightarrow> Q t \<longrightarrow> Q t'"
    by simp
  ultimately show ?case
    using Cons.IH [OF u(2)] by blast
qed

lemma concatOf_establishes:
  assumes r: "\<forall>t t'. t' \<in> set (threads r t) \<longrightarrow> Q t'"
    and rs: "\<forall>r' \<in> set rs. \<forall>t t'. t' \<in> set (threads r' t) \<longrightarrow> Q t \<longrightarrow> Q t'"
  shows "t' \<in> set (threads (concatOf (pre @ r # rs)) t) \<Longrightarrow> Q t'"
proof (induction pre arbitrary: t)
  case Nil
  then obtain u where u: "u \<in> set (threads r t)" "t' \<in> set (threads (concatOf rs) u)"
    unfolding append_Nil threads_concatOf_Cons set_andThen by blast
  have "Q u"
    using r u(1) by blast
  then show ?case
    by (rule concatOf_preserves [OF rs u(2)])
next
  case (Cons p pre)
  then obtain u where "t' \<in> set (threads (concatOf (pre @ r # rs)) u)"
    unfolding append_Cons threads_concatOf_Cons set_andThen by blast
  then show ?case
    by (rule Cons.IH)
qed

lemma consume_caps: "t' \<in> set (consume P t) \<Longrightarrow> snd t' = snd t"
  by (cases "(P, t)" rule: consume.cases) (auto split: if_splits)

lemma repeat_class_consumes:
  "t' \<in> set (threads (Repeat n (CharClass negated ranges)) t) \<Longrightarrow>
     \<exists>w. fst t = w @ fst t' \<and> length w = n \<and> (\<forall>c \<in> set w. inClass negated ranges c)"
proof (induction n arbitrary: t)
  case 0
  then show ?case by simp
next
  case (Suc n)
  from Suc.prems obtain u where u: "u \<in> set (consume (inClass negated ranges) t)"
      and t': "t' \<in> set (threads (Repeat n (CharClass negated ranges)) u)"
    by (auto simp: set_andThen)
  from u obtain c where c: "fst t = c # fst u" "inClass negated ranges c"
    by (cases "(inClass negated ranges, t)" rule: consume.cases) (auto split: if_splits)
  from Suc.IH [OF t'] obtain w where "fst u = w @ fst t'" "length w = n"
      "\<forall>c \<in> set w. inClass negated ranges c"
    by blast
  with c have "fst t = (c # w) @ fst t' \<and> length (c # w) = Suc n \<and>
      (\<forall>x \<in> set (c # w). inClass negated ranges x)"
    by simp
  then show ?case
    by blast
qed

lemma capture_repeat_class:
  assumes "t' \<in> set (threads (Capture k (Repeat n (CharClass negated ranges))) t)"
  shows "\<exists>h. snd t' k = Some h \<and> length h = n \<and> (\<forall>c \<in> set h. inClass negated ranges c)"
proof -
  from assms obtain u where u: "u \<in> set (threads (Repeat n (CharClass negated ranges)) t)"
      and t': "t' = (fst u, (snd u)(k \<mapsto> take (length (fst t) - length (fst u)) (fst t)))"
    by (auto simp: case_prod_beta)
  from repeat_class_consumes [OF u] obtain w where w: "fst t = w @ fst u" "length w = n"
      "\<forall>c \<in> set w. inClass negated ranges c"
    by blast
  then have "take (length (fst t) - length (fst u)) (fst t) = w"
    by simp
  with t' w show ?thesis
    by simp
qed

lemma capture_keeps_other:
  assumes inner: "\<forall>t t'. t' \<in> set (threads r t) \<longrightarrow> (\<exists>h. snd t' k = Some h \<and> G h)"
    and "j \<noteq> k"
  shows "\<forall>t t'. t' \<in> set (threads (Capture j r) t) \<longrightarrow> (\<exists>h. snd t' k = Some h \<and> G h)"
proof (intro allI impI)
  fix t t' :: thread
  assume "t' \<in> set (threads (Capture j r) t)"
  then obtain u where u: "u \<in> set (threads r t)"
      and t': "snd t' = (snd u)(j \<mapsto> take (length (fst t) - length (fst u)) (fst t))"
    by (auto simp: case_prod_beta)
  from inner u obtain h where "snd u k = Some h" "G h"
    by blast
  with t' assms(2) show "\<exists>h. snd t' k = Some h \<and> G h"
    by simp
qed

lemma FindStringSubmatch_Some:
  "FindStringSubmatch re s = Some ms \<Longrightarrow>
     \<exists>s' t'. suffix s' s \<and> t' \<in> set (threads re (s', Map.empty)) \<and> ms = submatches re s' t'"
proof (induction s)
  case Nil
  then show ?case
    by (auto split: list.splits)
next
  case (Cons c s)
  note found = Cons.prems and IH = Cons.IH
  show ?case
  proof (cases "threads re (c # s, Map.empty)")
    assume "threads re (c # s, Map.empty) = []"
    with found have "FindStringSubmatch re s = Some ms"
      by simp
    from IH [OF this] obtain s' t' where "suffix s' s"
        "t' \<in> set (threads re (s', Map.empty))" "ms = submatches re s' t'"
      by blast
    moreover from this(1) have "suffix s' (c # s)"
      by (rule suffix_ConsI)
    ultimately show ?thesis
      by blast
  next
    fix t ts
    assume first: "threads re (c # s, Map.empty) = t # ts"
    with found have "ms = submatches re (c # s) t"
      by auto
    moreover have "t \<in> set (threads re (c # s, Map.empty))"
      by (simp add: first)
    moreover have "suffix (c # s) (c # s)"
      by simp
    ultimately show ?thesis
      by blast
  qed
qed

lemma poolRe_hash:
  assumes "t' \<in> set (threads (concatOf (pre0 @
      Capture 2 (concatOf (pre @ Capture 3 (Repeat 8 (CharClass negated ranges)) # map Literal w))
      # [EndText])) t)"
  shows "\<exists>h. snd t' 3 = Some h \<and> length h = 8 \<and> (\<forall>c \<in> set h. inClass negated ranges c)"
proof -
  let ?G = "\<lambda>h. length h = 8 \<and> (\<forall>c \<in> set h. inClass negated ranges c)"
  let ?Q = "\<lambda>t :: thread. \<exists>h. snd t 3 = Some h \<and> ?G h"
  have lit: "\<forall>r' \<in> set (map Literal w). \<forall>t t'. t' \<in> set (threads r' t) \<longrightarrow> ?Q t \<longrightarrow> ?Q t'"
    by (auto dest: consume_caps)
  have cap3: "\<forall>t t'. t' \<in> set (threads (Capture 3 (Repeat 8 (CharClass negated ranges))) t)
      \<longrightarrow> ?Q t'"
    using capture_repeat_class by blast
  have "\<forall>t t'. t' \<in> set (threads (concatOf (pre @
      Capture 3 (Repeat 8 (CharClass negated ranges)) # map Literal w)) t) \<longrightarrow> ?Q t'"
    using concatOf_establishes [OF cap3 lit] by blast
  then have cap2: "\<forall>t t'. t' \<in> set (threads (Capture 2 (concatOf (pre @
      Capture 3 (Repeat 8 (CharClass negated ranges)) # map Literal w))) t) \<longrightarrow> ?Q t'"
    by (rule capture_keeps_other) simp
  have "\<forall>r' \<in> set [EndText]. \<forall>t t'. t' \<in> set (threads r' t) \<longrightarrow> ?Q t \<longrightarrow> ?Q t'"
    by (auto split: if_splits)
  from concatOf_establishes [OF cap2 this assms] show ?thesis .
qed

text \<open>A step never changes the budget and increments the counter only below it.\<close>

lemma orchestratorStep_counters:
  assumes "orchestratorStep create (d, st) = (d', st')"
  shows "totalTryCount d' = totalTryCount d \<and>
         (retryCount d' = retryCount d \<or>
          (retryCount d' = retryCount d + 1 \<and> retryCount d + 1 < totalTryCount d))"
  using assms
  by (cases st)
     (auto simp: VerifyLocationFlags_def split: if_splits sum.splits option.splits)

lemma runSteps_Suc: "runSteps create (Suc n) d = orchestratorStep create (runSteps create n d)"
  by (simp add: runSteps_def)

lemma runSteps_counters:
  "totalTryCount (fst (runSteps create n d)) = totalTryCount d \<and>
   0 \<le> retryCount (fst (runSteps create n d)) \<and>
   retryCount (fst (runSteps create n d)) \<le> max 0 (totalTryCount d)"
proof (induction n)
  case 0
  show ?case by (simp add: runSteps_def initial_def)
next
  case (Suc n)
  obtain d1 st1 where cfg: "runSteps create n d = (d1, st1)"
    by (cases "runSteps create n d")
  obtain d2 st2 where nxt: "orchestratorStep create (d1, st1) = (d2, st2)"
    by (cases "orchestratorStep create (d1, st1)")
  from orchestratorStep_counters [OF nxt] Suc.IH show ?case
    by (auto simp: runSteps_Suc cfg nxt)
qed

lemma Exhausted_is_final:
  "(orchestratorStep create ^^ k) (d, Exhausted errorText) = (d, Exhausted errorText)"
  by (induction k) simp_all

lemma runSteps_add:
  "runSteps create (Suc n + k) d
     = (orchestratorStep create ^^ k) (orchestratorStep create (runSteps create n d))"
proof -
  have "Suc n + k = k + Suc n" by simp
  then show ?thesis
    by (simp only: runSteps_def funpow_add o_apply funpow.simps)
qed

subsection \<open>Selecting the location\<close>

text \<open>
  Claim C1. Whenever \<open>zones\<close> is non-empty and the attempt index is within its bounds,
  \<open>locationFlag\<close> returns \<^verbatim>\<open>--zone=\<close> followed by the zone at that index, whatever
  \<open>regions\<close> holds; with empty zones and an index within the bounds of \<open>regions\<close> it
  returns \<^verbatim>\<open>--region=\<close> followed by the region at that index. In particular
  \<open>locationFlag [] Z k\<close> is \<^verbatim>\<open>--zone=\<close> followed by \<open>Z[k]\<close> for every zone list
  \<open>Z\<close> and in-bounds \<open>k\<close>.
\<close>

theorem locationFlag_selects:
  "(zones \<noteq> [] \<and> 0 \<le> i \<and> i < int (length zones) \<longrightarrow>
      locationFlag regions zones i = Inr (''--zone='' @ zones ! nat i)) \<and>
   (0 \<le> j \<and> j < int (length regions) \<longrightarrow>
      locationFlag regions [] j = Inr (''--region='' @ regions ! nat j)) \<and>
   (0 \<le> k \<and> k < int (length Z) \<longrightarrow>
      locationFlag [] Z k = Inr (''--zone='' @ Z ! nat k))"
  by (auto simp: locationFlag_def elemAt_def)

text \<open>The statement at two zones with index 1, at two regions with index 1, and at index 0.\<close>

theorem locationFlag_selects_witness:
  "locationFlag [''us-east1''] [''us-central1-a'', ''us-west1-b''] 1 = Inr ''--zone=us-west1-b'' \<and>
   locationFlag [''us-east1'', ''europe-west4''] [] 1 = Inr ''--region=europe-west4'' \<and>
   locationFlag [] [''us-central1-a'', ''us-west1-b''] 0 = Inr ''--zone=us-central1-a''"
  using locationFlag_selects [where zones = "[''us-central1-a'', ''us-west1-b'']" and i = 1
      and regions = "[''us-east1'']"]
    locationFlag_selects [where regions = "[''us-east1'', ''europe-west4'']" and j = 1
      and Z = "[''us-central1-a'', ''us-west1-b'']" and k = 0]
  by simp

text \<open>
  Claim C2. When the zone list is non-empty and the zone at the attempt index has the
  form \<open>region-sfx\<close>, where \<open>sfx\<close> holds no hyphen, \<open>regionFromLocation\<close> returns
  exactly \<open>region\<close>, the text before the last hyphen. With an empty zone list it
  returns the region at the attempt index unchanged.
\<close>

theorem regionFromLocation_truncates:
  "(zones \<noteq> [] \<and> 0 \<le> i \<and> i < int (length zones) \<and>
      zones ! nat i = region @ ''-'' @ sfx \<and> CHR ''-'' \<notin> set sfx \<longrightarrow>
      regionFromLocation regions zones i = Inr region) \<and>
   (0 \<le> j \<and> j < int (length regions) \<longrightarrow>
      regionFromLocation regions [] j = Inr (regions ! nat j))"
  by (auto simp: regionFromLocation_def elemAt_def sliceTo_def LastIndex_last_occurrence)

text \<open>\<^verbatim>\<open>us-central1-a\<close> yields \<^verbatim>\<open>us-central1\<close>; a region is returned as it is.\<close>

theorem regionFromLocation_truncates_witness:
  "regionFromLocation [] [''europe-west4-b'', ''us-central1-a''] 1 = Inr ''us-central1'' \<and>
   regionFromLocation [''us-east1'', ''europe-west4''] [] 1 = Inr ''europe-west4''"
  using regionFromLocation_truncates [where zones = "[''europe-west4-b'', ''us-central1-a'']"
      and i = 1 and region = "''us-central1''" and sfx = "''a''" and regions = "[]"]
    regionFromLocation_truncates [where regions = "[''us-east1'', ''europe-west4'']" and j = 1]
  by simp

text \<open>
  Claim C9. When the zone selected at an in-bounds attempt index holds no hyphen,
  \<open>LastIndex\<close> returns \<open>-1\<close> and the slice \<^verbatim>\<open>zone[0:-1]\<close> panics with its bounds out of
  range. With a non-empty zone list and an in-bounds index the function returns a
  string exactly when the selected zone holds a hyphen.
\<close>

theorem regionFromLocation_hyphenless_panics:
  "zones \<noteq> [] \<and> 0 \<le> i \<and> i < int (length zones) \<longrightarrow>
     (CHR ''-'' \<notin> set (zones ! nat i) \<longrightarrow>
        LastIndex (zones ! nat i) ''-'' = - 1 \<and>
        regionFromLocation regions zones i
          = Inl (SliceBoundsOutOfRange (- 1) (length (zones ! nat i)))) \<and>
     ((\<exists>r. regionFromLocation regions zones i = Inr r) \<longleftrightarrow> CHR ''-'' \<in> set (zones ! nat i))"
proof (intro impI, elim conjE)
  assume nz: "zones \<noteq> []" and lo: "0 \<le> i" and hi: "i < int (length zones)"
  let ?z = "zones ! nat i"
  have sel: "regionFromLocation regions zones i = sliceTo ?z (LastIndex ?z ''-'')"
    using nz lo hi by (simp add: regionFromLocation_def elemAt_def)
  have absent: "CHR ''-'' \<notin> set ?z \<longrightarrow> LastIndex ?z ''-'' = - 1 \<and>
      regionFromLocation regions zones i = Inl (SliceBoundsOutOfRange (- 1) (length ?z))"
    by (simp add: sel LastIndex_absent sliceTo_def)
  have present: "\<exists>r. regionFromLocation regions zones i = Inr r" if "CHR ''-'' \<in> set ?z"
  proof -
    from that obtain pre sfx where z: "?z = pre @ CHR ''-'' # sfx" and "CHR ''-'' \<notin> set sfx"
      by (meson split_list_last)
    then show ?thesis
      by (simp add: sel LastIndex_last_occurrence sliceTo_def)
  qed
  show "(CHR ''-'' \<notin> set ?z \<longrightarrow>
        LastIndex ?z ''-'' = - 1 \<and>
        regionFromLocation regions zones i = Inl (SliceBoundsOutOfRange (- 1) (length ?z))) \<and>
     ((\<exists>r. regionFromLocation regions zones i = Inr r) \<longleftrightarrow> CHR ''-'' \<in> set ?z)"
  proof (intro conjI)
    show "CHR ''-'' \<notin> set ?z \<longrightarrow>
        LastIndex ?z ''-'' = - 1 \<and>
        regionFromLocation regions zones i = Inl (SliceBoundsOutOfRange (- 1) (length ?z))"
      by (rule absent)
    show "(\<exists>r. regionFromLocation regions zones i = Inr r) \<longleftrightarrow> CHR ''-'' \<in> set ?z"
    proof
      assume "\<exists>r. regionFromLocation regions zones i = Inr r"
      then show "CHR ''-'' \<in> set ?z"
        using absent by auto
    next
      assume "CHR ''-'' \<in> set ?z"
      then show "\<exists>r. regionFromLocation regions zones i = Inr r"
        by (rule present)
    qed
  qed
qed

text \<open>The zone \<^verbatim>\<open>local\<close> has no hyphen: the call panics.\<close>

theorem regionFromLocation_hyphenless_panics_witness:
  "LastIndex ''local'' ''-'' = - 1 \<and>
   regionFromLocation [] [''us-central1-a'', ''local''] 1 = Inl (SliceBoundsOutOfRange (- 1) 5) \<and>
   (\<nexists>r. regionFromLocation [] [''us-central1-a'', ''local''] 1 = Inr r)"
  using regionFromLocation_hyphenless_panics [of "[''us-central1-a'', ''local'']" 1 "[]"]
  by simp

subsection \<open>Validation of the location flags\<close>

text \<open>
  Claim C4. \<open>VerifyLocationFlags\<close> returns an error exactly when it is not the case that
  exactly one of the zone and region lists is non-empty: it fails when both are empty
  and when both are non-empty, each with its own message, and returns no error
  otherwise. The call leaves the deployer as it was; in particular \<open>retryCount\<close> is
  not consumed.
\<close>

theorem VerifyLocationFlags_exactly_one:
  "(fst (VerifyLocationFlags d) \<noteq> None) =
     (\<not> ((Zones (UpOptions d) \<noteq> []) \<noteq> (Regions (UpOptions d) \<noteq> []))) \<and>
   (fst (VerifyLocationFlags d) = None) =
     ((Zones (UpOptions d) \<noteq> []) \<noteq> (Regions (UpOptions d) \<noteq> [])) \<and>
   (Zones (UpOptions d) = [] \<and> Regions (UpOptions d) = [] \<longrightarrow>
      fst (VerifyLocationFlags d) = Some (Errorf ''--zone or --region must be set for GKE deployment'')) \<and>
   (Zones (UpOptions d) \<noteq> [] \<and> Regions (UpOptions d) \<noteq> [] \<longrightarrow>
      fst (VerifyLocationFlags d) = Some (Errorf ''--zone and --region cannot both be set'')) \<and>
   snd (VerifyLocationFlags d) = d \<and>
   retryCount (snd (VerifyLocationFlags d)) = retryCount d"
  by (auto simp: VerifyLocationFlags_def)

text \<open>
  A deployer fresh from \<open>New\<close> has neither list set and is rejected; with one zone it
  is accepted; with a zone and a region it is rejected.
\<close>

theorem VerifyLocationFlags_exactly_one_witness:
  "fst (VerifyLocationFlags
      (New \<lparr>WindowsImageTypeLTSC = ''WINDOWS_LTSC'', defaultBoskosLocation = ''http://boskos'',
            defaultGKEProjectResourceType = ''gke-project'',
            defaultBoskosAcquireTimeoutSeconds = 300,
            defaultBoskosHeartbeatIntervalSeconds = 300\<rparr>
         (\<lambda>a b. a @ ''/'' @ b) \<lparr>RunDir = ''/tmp/run''\<rparr>))
     = Some (Errorf ''--zone or --region must be set for GKE deployment'') \<and>
   fst (VerifyLocationFlags
      ((New \<lparr>WindowsImageTypeLTSC = ''WINDOWS_LTSC'', defaultBoskosLocation = ''http://boskos'',
            defaultGKEProjectResourceType = ''gke-project'',
            defaultBoskosAcquireTimeoutSeconds = 300,
            defaultBoskosHeartbeatIntervalSeconds = 300\<rparr>
         (\<lambda>a b. a @ ''/'' @ b) \<lparr>RunDir = ''/tmp/run''\<rparr>)
       \<lparr>UpOptions := \<lparr>NumClusters = 1, NumNodes = 3, MachineType = ''n1-standard-2'',
          ImageType = ''cos'', WindowsNumNodes = 1, WindowsMachineType = ''n1-standard-2'',
          WindowsImageType = ''WINDOWS_LTSC'', Version = [], GCPSSHKeyIgnored = True,
          BoskosLocation = ''http://boskos'', BoskosResourceType = ''gke-project'',
          BoskosAcquireTimeoutSeconds = 300, BoskosHeartbeatIntervalSeconds = 300,
          BoskosProjectsRequested = 1, RetryableErrorPatterns = [gceStockoutErrorPattern],
          Zones = [''us-central1-a''], Regions = []\<rparr>\<rparr>))
     = None \<and>
   fst (VerifyLocationFlags
      ((New \<lparr>WindowsImageTypeLTSC = ''WINDOWS_LTSC'', defaultBoskosLocation = ''http://boskos'',
            defaultGKEProjectResourceType = ''gke-project'',
            defaultBoskosAcquireTimeoutSeconds = 300,
            defaultBoskosHeartbeatIntervalSeconds = 300\<rparr>
         (\<lambda>a b. a @ ''/'' @ b) \<lparr>RunDir = ''/tmp/run''\<rparr>)
       \<lparr>UpOptions := \<lparr>NumClusters = 1, NumNodes = 3, MachineType = ''n1-standard-2'',
          ImageType = ''cos'', WindowsNumNodes = 1, WindowsMachineType = ''n1-standard-2'',
          WindowsImageType = ''WINDOWS_LTSC'', Version = [], GCPSSHKeyIgnored = True,
          BoskosLocation = ''http://boskos'', BoskosResourceType = ''gke-project'',
          BoskosAcquireTimeoutSeconds = 300, BoskosHeartbeatIntervalSeconds = 300,
          BoskosProjectsRequested = 1, RetryableErrorPatterns = [gceStockoutErrorPattern],
          Zones = [''us-central1-a''], Regions = [''us-central1'']\<rparr>\<rparr>))
     = Some (Errorf ''--zone and --region cannot both be set'')"
proof -
  let ?d = "New \<lparr>WindowsImageTypeLTSC = ''WINDOWS_LTSC'', defaultBoskosLocation = ''http://boskos'',
            defaultGKEProjectResourceType = ''gke-project'',
            defaultBoskosAcquireTimeoutSeconds = 300,
            defaultBoskosHeartbeatIntervalSeconds = 300\<rparr>
         (\<lambda>a b. a @ ''/'' @ b) \<lparr>RunDir = ''/tmp/run''\<rparr>"
  let ?up = "\<lambda>zs rs. \<lparr>NumClusters = 1, NumNodes = 3, MachineType = ''n1-standard-2'',
          ImageType = ''cos'', WindowsNumNodes = 1, WindowsMachineType = ''n1-standard-2'',
          WindowsImageType = ''WINDOWS_LTSC'', Version = [], GCPSSHKeyIgnored = True,
          BoskosLocation = ''http://boskos'', BoskosResourceType = ''gke-project'',
          BoskosAcquireTimeoutSeconds = 300, BoskosHeartbeatIntervalSeconds = 300,
          BoskosProjectsRequested = 1, RetryableErrorPatterns = [gceStockoutErrorPattern],
          Zones = zs, Regions = rs\<rparr>"
  have a: "Zones (UpOptions ?d) = [] \<and> Regions (UpOptions ?d) = []"
    by (simp add: New_def)
  have b: "(Zones (UpOptions (?d\<lparr>UpOptions := ?up [''us-central1-a''] []\<rparr>)) \<noteq> [])
      \<noteq> (Regions (UpOptions (?d\<lparr>UpOptions := ?up [''us-central1-a''] []\<rparr>)) \<noteq> [])"
    by simp
  have c: "Zones (UpOptions (?d\<lparr>UpOptions := ?up [''us-central1-a''] [''us-central1'']\<rparr>)) \<noteq> []
      \<and> Regions (UpOptions (?d\<lparr>UpOptions := ?up [''us-central1-a''] [''us-central1'']\<rparr>)) \<noteq> []"
    by simp
  show ?thesis
    using a b c VerifyLocationFlags_exactly_one [of ?d]
      VerifyLocationFlags_exactly_one [of "?d\<lparr>UpOptions := ?up [''us-central1-a''] []\<rparr>"]
      VerifyLocationFlags_exactly_one [of "?d\<lparr>UpOptions := ?up [''us-central1-a''] [''us-central1'']\<rparr>"]
    by blast
qed

subsection \<open>Constants and defaults\<close>

text \<open>
  Claim C8. The firewall's allowed-ports specification \<open>e2eAllow\<close> is exactly the string
  \<^verbatim>\<open>tcp:22,tcp:80,tcp:8080,tcp:30000-32767,udp:30000-32767\<close>.
\<close>

theorem e2eAllow_value:
  "e2eAllow = ''tcp:22,tcp:80,tcp:8080,tcp:30000-32767,udp:30000-32767''"
  by (simp add: e2eAllow_def)

text \<open>
  Claim C7. The default Linux node pool has 3 nodes of machine type \<^verbatim>\<open>n1-standard-2\<close>
  and the default Windows node pool has 1 node. A deployer built by \<open>New\<close> has
  \<open>NumClusters\<close> 1, takes \<open>NumNodes\<close> and \<open>MachineType\<close> from the default Linux pool
  and \<open>WindowsNumNodes\<close> and \<open>WindowsMachineType\<close> from the default Windows pool, and
  requests one Boskos project.
\<close>

theorem New_defaults:
  "Nodes defaultNodePool = 3 \<and>
   gkeNodePool.MachineType defaultNodePool = ''n1-standard-2'' \<and>
   Nodes defaultWindowsNodePool = 1 \<and>
   NumClusters (UpOptions (New pkg join opts)) = 1 \<and>
   NumNodes (UpOptions (New pkg join opts)) = Nodes defaultNodePool \<and>
   NumNodes (UpOptions (New pkg join opts)) = 3 \<and>
   UpOptions.MachineType (UpOptions (New pkg join opts)) = gkeNodePool.MachineType defaultNodePool \<and>
   UpOptions.MachineType (UpOptions (New pkg join opts)) = ''n1-standard-2'' \<and>
   WindowsNumNodes (UpOptions (New pkg join opts)) = Nodes defaultWindowsNodePool \<and>
   WindowsNumNodes (UpOptions (New pkg join opts)) = 1 \<and>
   WindowsMachineType (UpOptions (New pkg join opts)) = gkeNodePool.MachineType defaultWindowsNodePool \<and>
   BoskosProjectsRequested (UpOptions (New pkg join opts)) = 1"
  by (simp add: New_def defaultNodePool_def defaultWindowsNodePool_def)

subsection \<open>Instance-group URLs\<close>

text \<open>
  Claim C3. \<open>poolRe\<close> compiles, and matching the instance-group URL
  \<^verbatim>\<open>https://www.googleapis.com/compute/v1/projects/p/zones/us-central1-a/instanceGroupManagers/gke-mycluster-pool-90fcb815-grp\<close>
  succeeds with submatch 1 (the zone) \<^verbatim>\<open>us-central1-a\<close>, submatch 2 (the pool name)
  \<^verbatim>\<open>gke-mycluster-pool-90fcb815-grp\<close> and submatch 3 (the unique hash) \<^verbatim>\<open>90fcb815\<close>.
  Whenever a URL matches there are exactly these four submatches, and the hash has 8
  characters, each of the class \<^verbatim>\<open>[0-9a-f]\<close>. For every URL that lacks the segment
  \<^verbatim>\<open>/instanceGroupManagers/\<close>, and so for every URL that lacks the word
  \<^verbatim>\<open>instanceGroupManagers\<close>, the match fails.
\<close>

theorem poolRe_parses_instance_group_url:
  "\<exists>re. poolRe = Inr re \<and>
     FindStringSubmatch re
       ''https://www.googleapis.com/compute/v1/projects/p/zones/us-central1-a/instanceGroupManagers/gke-mycluster-pool-90fcb815-grp''
     = Some [''zones/us-central1-a/instanceGroupManagers/gke-mycluster-pool-90fcb815-grp'',
             ''us-central1-a'', ''gke-mycluster-pool-90fcb815-grp'', ''90fcb815''] \<and>
     (\<forall>url ms. FindStringSubmatch re url = Some ms \<longrightarrow>
        (\<exists>m0 m1 m2 m3. ms = [m0, m1, m2, m3] \<and> length m3 = 8 \<and>
           (\<forall>c \<in> set m3. inClass False [(CHR ''0'', CHR ''9''), (CHR ''a'', CHR ''f'')] c))) \<and>
     (\<forall>url. \<not> sublist ''/instanceGroupManagers/'' url \<longrightarrow> FindStringSubmatch re url = None) \<and>
     (\<forall>url. \<not> sublist ''instanceGroupManagers'' url \<longrightarrow> FindStringSubmatch re url = None)"
proof -
  let ?hex = "CharClass False [(CHR ''0'', CHR ''9''), (CHR ''a'', CHR ''f'')]"
  let ?r1 = "Capture 1 (Plus (CharClass True [(CHR ''/'', CHR ''/'')]))"
  let ?pre = "map Literal ''gk'' @
          [CharClass False [(CHR ''e'', CHR ''e''), (CHR ''|'', CHR ''|''), (CHR ''3'', CHR ''3'')],
           Literal CHR ''-'', Star AnyCharNotNL, Literal CHR ''-'']"
  let ?r2 = "Capture 2 (concatOf (?pre @ Capture 3 (Repeat 8 ?hex) # map Literal ''-grp''))"
  let ?re = "concatOf (map Literal ''zones/'' @ ?r1 # map Literal ''/instanceGroupManagers/'' @
          ?r2 # [EndText])"
  have compiled: "poolRe = Inr ?re"
    using poolRe_compiled by simp
  have found: "FindStringSubmatch ?re
       ''https://www.googleapis.com/compute/v1/projects/p/zones/us-central1-a/instanceGroupManagers/gke-mycluster-pool-90fcb815-grp''
     = Some [''zones/us-central1-a/instanceGroupManagers/gke-mycluster-pool-90fcb815-grp'',
             ''us-central1-a'', ''gke-mycluster-pool-90fcb815-grp'', ''90fcb815'']"
    by code_simp
  have groups: "NumSubexp ?re = 3"
    by code_simp
  have hash: "\<exists>m0 m1 m2 m3. ms = [m0, m1, m2, m3] \<and> length m3 = 8 \<and>
      (\<forall>c \<in> set m3. inClass False [(CHR ''0'', CHR ''9''), (CHR ''a'', CHR ''f'')] c)"
    if "FindStringSubmatch ?re url = Some ms" for url ms
  proof -
    from FindStringSubmatch_Some [OF that] obtain s' t'
      where t': "t' \<in> set (threads ?re (s', Map.empty))" and ms: "ms = submatches ?re s' t'"
      by blast
    have "?re = concatOf ((map Literal ''zones/'' @ ?r1 # map Literal ''/instanceGroupManagers/'') @
          ?r2 # [EndText])"
      by simp
    with t' have "\<exists>h. snd t' 3 = Some h \<and> length h = 8 \<and>
        (\<forall>c \<in> set h. inClass False [(CHR ''0'', CHR ''9''), (CHR ''a'', CHR ''f'')] c)"
      using poolRe_hash by metis
    then obtain h where h: "snd t' 3 = Some h" "length h = 8"
        "\<forall>c \<in> set h. inClass False [(CHR ''0'', CHR ''9''), (CHR ''a'', CHR ''f'')] c"
      by blast
    have "[1..<Suc 3] = [1, 2, 3]"
      by code_simp
    then have "ms = [take (length s' - length (fst t')) s',
        (case snd t' 1 of None \<Rightarrow> [] | Some m \<Rightarrow> m),
        (case snd t' 2 of None \<Rightarrow> [] | Some m \<Rightarrow> m), h]"
      unfolding ms submatches_def groups by (simp add: h(1))
    with h(2,3) show ?thesis
      by blast
  qed
  have slashed: "FindStringSubmatch ?re url = None"
    if "\<not> sublist ''/instanceGroupManagers/'' url" for url
    using that by (rule no_segment_no_match)
  have inner: "sublist ''instanceGroupManagers'' ''/instanceGroupManagers/''"
    by code_simp
  have bare: "FindStringSubmatch ?re url = None"
    if "\<not> sublist ''instanceGroupManagers'' url" for url
  proof (rule slashed)
    show "\<not> sublist ''/instanceGroupManagers/'' url"
      using that inner by (meson sublist_order.order.trans)
  qed
  from compiled found hash slashed bare show ?thesis
    by blast
qed

text \<open>
  A URL of an unmanaged instance group, with \<^verbatim>\<open>instanceGroups\<close> in place of
  \<^verbatim>\<open>instanceGroupManagers\<close>, does not match; the example URL matches with a hash of 8
  characters.
\<close>

theorem poolRe_parses_instance_group_url_witness:
  "\<exists>re. poolRe = Inr re \<and>
     FindStringSubmatch re
       ''https://www.googleapis.com/compute/v1/projects/p/zones/us-central1-a/instanceGroups/gke-mycluster-pool-90fcb815-grp''
     = None \<and>
     (\<exists>m0 m1 m2 m3. FindStringSubmatch re
       ''https://www.googleapis.com/compute/v1/projects/p/zones/us-central1-a/instanceGroupManagers/gke-mycluster-pool-90fcb815-grp''
       = Some [m0, m1, m2, m3] \<and> length m3 = 8)"
proof -
  from poolRe_parses_instance_group_url obtain re where re: "poolRe = Inr re"
    and found: "FindStringSubmatch re
       ''https://www.googleapis.com/compute/v1/projects/p/zones/us-central1-a/instanceGroupManagers/gke-mycluster-pool-90fcb815-grp''
     = Some [''zones/us-central1-a/instanceGroupManagers/gke-mycluster-pool-90fcb815-grp'',
             ''us-central1-a'', ''gke-mycluster-pool-90fcb815-grp'', ''90fcb815'']"
    and hash: "\<And>url ms. FindStringSubmatch re url = Some ms \<Longrightarrow>
        \<exists>m0 m1 m2 m3. ms = [m0, m1, m2, m3] \<and> length m3 = 8 \<and>
           (\<forall>c \<in> set m3. inClass False [(CHR ''0'', CHR ''9''), (CHR ''a'', CHR ''f'')] c)"
    and absent: "\<And>url. \<not> sublist ''/instanceGroupManagers/'' url \<Longrightarrow>
        FindStringSubmatch re url = None"
    by blast
  have "\<not> sublist ''/instanceGroupManagers/''
      ''https://www.googleapis.com/compute/v1/projects/p/zones/us-central1-a/instanceGroups/gke-mycluster-pool-90fcb815-grp''"
    by code_simp
  then have "FindStringSubmatch re
       ''https://www.googleapis.com/compute/v1/projects/p/zones/us-central1-a/instanceGroups/gke-mycluster-pool-90fcb815-grp''
     = None"
    by (rule absent)
  moreover from hash [OF found] found
  have "\<exists>m0 m1 m2 m3. FindStringSubmatch re
       ''https://www.googleapis.com/compute/v1/projects/p/zones/us-central1-a/instanceGroupManagers/gke-mycluster-pool-90fcb815-grp''
       = Some [m0, m1, m2, m3] \<and> length m3 = 8"
    by blast
  ultimately show ?thesis
    using re by blast
qed

text \<open>
  Claim C10. The bracket class \<^verbatim>\<open>[e|3]\<close> of \<open>poolRe\<close> holds the pipe character as well
  as \<^verbatim>\<open>e\<close> and \<^verbatim>\<open>3\<close>: a URL whose manager name begins with \<^verbatim>\<open>gk|-\<close> and otherwise
  fits the pattern is matched, as the \<^verbatim>\<open>gk3-\<close> name is, while a name that begins with
  \<^verbatim>\<open>gkx-\<close> is not.
\<close>

theorem poolRe_class_accepts_pipe:
  "\<exists>re. poolRe = Inr re \<and>
     FindStringSubmatch re
       ''https://www.googleapis.com/compute/v1/projects/p/zones/us-central1-a/instanceGroupManagers/gk|-mycluster-pool-90fcb815-grp''
     = Some [''zones/us-central1-a/instanceGroupManagers/gk|-mycluster-pool-90fcb815-grp'',
             ''us-central1-a'', ''gk|-mycluster-pool-90fcb815-grp'', ''90fcb815''] \<and>
     FindStringSubmatch re
       ''https://www.googleapis.com/compute/v1/projects/p/zones/us-central1-a/instanceGroupManagers/gk3-mycluster-pool-90fcb815-grp''
     = Some [''zones/us-central1-a/instanceGroupManagers/gk3-mycluster-pool-90fcb815-grp'',
             ''us-central1-a'', ''gk3-mycluster-pool-90fcb815-grp'', ''90fcb815''] \<and>
     FindStringSubmatch re
       ''https://www.googleapis.com/compute/v1/projects/p/zones/us-central1-a/instanceGroupManagers/gkx-mycluster-pool-90fcb815-grp''
     = None"
proof -
  let ?r1 = "Capture 1 (Plus (CharClass True [(CHR ''/'', CHR ''/'')]))"
  let ?r2 = "Capture 2 (concatOf (map Literal ''gk'' @
          CharClass False [(CHR ''e'', CHR ''e''), (CHR ''|'', CHR ''|''), (CHR ''3'', CHR ''3'')] #
          Literal CHR ''-'' # Star AnyCharNotNL # Literal CHR ''-'' #
          Capture 3 (Repeat 8 (CharClass False [(CHR ''0'', CHR ''9''), (CHR ''a'', CHR ''f'')])) #
          map Literal ''-grp''))"
  let ?re = "concatOf (map Literal ''zones/'' @ ?r1 # map Literal ''/instanceGroupManagers/'' @
          ?r2 # [EndText])"
  have compiled: "poolRe = Inr ?re"
    using poolRe_compiled by simp
  have pipe: "FindStringSubmatch ?re
       ''https://www.googleapis.com/compute/v1/projects/p/zones/us-central1-a/instanceGroupManagers/gk|-mycluster-pool-90fcb815-grp''
     = Some [''zones/us-central1-a/instanceGroupManagers/gk|-mycluster-pool-90fcb815-grp'',
             ''us-central1-a'', ''gk|-mycluster-pool-90fcb815-grp'', ''90fcb815'']"
    by code_simp
  have three: "FindStringSubmatch ?re
       ''https://www.googleapis.com/compute/v1/projects/p/zones/us-central1-a/instanceGroupManagers/gk3-mycluster-pool-90fcb815-grp''
     = Some [''zones/us-central1-a/instanceGroupManagers/gk3-mycluster-pool-90fcb815-grp'',
             ''us-central1-a'', ''gk3-mycluster-pool-90fcb815-grp'', ''90fcb815'']"
    by code_simp
  have other: "FindStringSubmatch ?re
       ''https://www.googleapis.com/compute/v1/projects/p/zones/us-central1-a/instanceGroupManagers/gkx-mycluster-pool-90fcb815-grp''
     = None"
    by code_simp
  from compiled pipe three other show ?thesis
    by blast
qed

subsection \<open>Retryable errors\<close>

text \<open>
  Claim C5. The deployer built by \<open>New\<close> has exactly one retryable-error pattern, the
  stockout pattern. The pattern set compiles, and under it an error text is retryable
  exactly when it contains the phrase
  \<^verbatim>\<open>does not have enough resources available to fulfill\<close> anywhere in it. For any set
  of compiled patterns, an error text is retryable exactly when some pattern of the set
  matches it; a text that matches none is not retryable.
\<close>

theorem default_patterns_classify:
  "RetryableErrorPatterns (UpOptions (New pkg join opts)) = [gceStockoutErrorPattern] \<and>
   (\<exists>res. compilePatterns (RetryableErrorPatterns (UpOptions (New pkg join opts))) = Some res \<and>
      (\<forall>errorText. isRetryable res errorText
         = sublist ''does not have enough resources available to fulfill'' errorText)) \<and>
   (\<forall>res errorText. isRetryable res errorText = (\<exists>re \<in> set res. MatchString re errorText))"
proof -
  let ?w = "''does not have enough resources available to fulfill''"
  let ?re = "concatOf (Star AnyCharNotNL # map Literal ?w @ [Star AnyCharNotNL])"
  have patterns: "RetryableErrorPatterns (UpOptions (New pkg join opts)) = [gceStockoutErrorPattern]"
    by (simp add: New_def)
  have compiled: "compilePatterns [gceStockoutErrorPattern] = Some [?re]"
    using stockout_compiled by simp
  have "MatchString ?re errorText = sublist ?w errorText" for errorText
    unfolding MatchString_def
    using stockout_matches [of ?w errorText] stockout_only_matches [of ?w errorText] by blast
  then have classify: "isRetryable [?re] errorText = sublist ?w errorText" for errorText
    by simp
  from patterns compiled classify isRetryable_iff show ?thesis
    by (metis (no_types, lifting))
qed

text \<open>
  A verbose stockout message is retryable; a quota message is not.
\<close>

theorem default_patterns_classify_witness:
  "\<exists>res. compilePatterns [gceStockoutErrorPattern] = Some res \<and>
     isRetryable res
       ''ERROR: (gcloud.container.clusters.create) Operation failed: the zone us-central1-a does not have enough resources available to fulfill the request. Try a different zone.''
     \<and> \<not> isRetryable res ''ERROR: (gcloud.container.clusters.create) ResponseError: code=403, message=Insufficient regional quota''"
proof -
  have a: "sublist ''does not have enough resources available to fulfill''
      ''ERROR: (gcloud.container.clusters.create) Operation failed: the zone us-central1-a does not have enough resources available to fulfill the request. Try a different zone.''"
    by code_simp
  have b: "\<not> sublist ''does not have enough resources available to fulfill''
      ''ERROR: (gcloud.container.clusters.create) ResponseError: code=403, message=Insufficient regional quota''"
    by code_simp
  have c: "RetryableErrorPatterns (UpOptions (New pkg join opts)) = [gceStockoutErrorPattern]"
    for pkg join opts
    by (simp add: New_def)
  from a b default_patterns_classify [unfolded c] show ?thesis
    by blast
qed

subsection \<open>The retry budget\<close>

text \<open>
  Claim C6. After any number of steps of an orchestration run, with any collaborator,
  \<open>retryCount\<close> is at most \<open>totalTryCount\<close> (for a budget that is not negative; in
  general it is at most \<open>max 0 totalTryCount\<close>), and the budget itself is unchanged.
  When an attempt fails with \<open>retryCount + 1\<close> having reached the budget, the run
  moves to \<open>Exhausted\<close> with the error text of that attempt and stays there: no
  further location is attempted.
\<close>

theorem retryCount_within_budget:
  "retryCount (fst (runSteps create n d)) \<le> max 0 (totalTryCount d) \<and>
   (0 \<le> totalTryCount d \<longrightarrow> retryCount (fst (runSteps create n d)) \<le> totalTryCount d) \<and>
   totalTryCount (fst (runSteps create n d)) = totalTryCount d \<and>
   (snd (runSteps create n d) = Attempting \<and>
    locationFlag (Regions (UpOptions (fst (runSteps create n d))))
      (Zones (UpOptions (fst (runSteps create n d))))
      (retryCount (fst (runSteps create n d))) = Inr location \<and>
    create (retryCount (fst (runSteps create n d))) location = Some errorText \<and>
    totalTryCount d \<le> retryCount (fst (runSteps create n d)) + 1 \<longrightarrow>
    (\<forall>k. runSteps create (Suc n + k) d = (fst (runSteps create n d), Exhausted errorText)))"
proof (intro conjI impI allI)
  show "retryCount (fst (runSteps create n d)) \<le> max 0 (totalTryCount d)"
    using runSteps_counters by blast
  show "retryCount (fst (runSteps create n d)) \<le> totalTryCount d" if "0 \<le> totalTryCount d"
    using runSteps_counters [of create n d] that by simp
  show "totalTryCount (fst (runSteps create n d)) = totalTryCount d"
    using runSteps_counters by blast
next
  fix k
  assume h: "snd (runSteps create n d) = Attempting \<and>
    locationFlag (Regions (UpOptions (fst (runSteps create n d))))
      (Zones (UpOptions (fst (runSteps create n d))))
      (retryCount (fst (runSteps create n d))) = Inr location \<and>
    create (retryCount (fst (runSteps create n d))) location = Some errorText \<and>
    totalTryCount d \<le> retryCount (fst (runSteps create n d)) + 1"
  obtain dn where cfg: "runSteps create n d = (dn, Attempting)"
    using h by (cases "runSteps create n d") simp
  have total: "totalTryCount dn = totalTryCount d"
    using runSteps_counters [of create n d] by (simp add: cfg)
  have "orchestratorStep create (dn, Attempting) = (dn, Exhausted errorText)"
    using h by (simp add: cfg total)
  then show "runSteps create (Suc n + k) d = (fst (runSteps create n d), Exhausted errorText)"
    by (simp only: runSteps_add cfg Exhausted_is_final fst_conv)
qed

text \<open>
  Three candidate zones, a budget of 2 and a collaborator that always reports a
  stockout: the second attempt is made with \<open>retryCount = 1\<close>, and its failure ends the
  run in \<open>Exhausted\<close> with that attempt's error text.
\<close>

theorem retryCount_within_budget_witness:
  "let d = (New \<lparr>WindowsImageTypeLTSC = ''WINDOWS_LTSC'', defaultBoskosLocation = ''http://boskos'',
                  defaultGKEProjectResourceType = ''gke-project'',
                  defaultBoskosAcquireTimeoutSeconds = 300,
                  defaultBoskosHeartbeatIntervalSeconds = 300\<rparr>
               (\<lambda>a b. a @ ''/'' @ b) \<lparr>RunDir = ''/tmp/run''\<rparr>)
             \<lparr>UpOptions := \<lparr>NumClusters = 1, NumNodes = 3, MachineType = ''n1-standard-2'',
                ImageType = ''cos'', WindowsNumNodes = 1, WindowsMachineType = ''n1-standard-2'',
                WindowsImageType = ''WINDOWS_LTSC'', Version = [], GCPSSHKeyIgnored = True,
                BoskosLocation = ''http://boskos'', BoskosResourceType = ''gke-project'',
                BoskosAcquireTimeoutSeconds = 300, BoskosHeartbeatIntervalSeconds = 300,
                BoskosProjectsRequested = 1, RetryableErrorPatterns = [gceStockoutErrorPattern],
                Zones = [''us-central1-a'', ''us-central1-b'', ''us-central1-c''], Regions = []\<rparr>,
              totalTryCount := 2,
              retryableErrorPatternsCompiled :=
                [concatOf (Star AnyCharNotNL #
                   map Literal ''does not have enough resources available to fulfill'' @
                   [Star AnyCharNotNL])]\<rparr>;
       create = (\<lambda>i location. Some (''zone does not have enough resources available to fulfill the request: '' @ location))
   in retryCount (fst (runSteps create 2 d)) = 1 \<and>
      retryCount (fst (runSteps create 2 d)) \<le> totalTryCount d \<and>
      snd (runSteps create 2 d) = Attempting \<and>
      (\<forall>k. snd (runSteps create (Suc 2 + k) d)
         = Exhausted ''zone does not have enough resources available to fulfill the request: --zone=us-central1-b'') \<and>
      (\<forall>k. retryCount (fst (runSteps create (Suc 2 + k) d)) = 1)"
proof -
  define re where "re = concatOf (Star AnyCharNotNL #
      map Literal ''does not have enough resources available to fulfill'' @ [Star AnyCharNotNL])"
  define msg where "msg = (\<lambda>location :: string.
      ''zone does not have enough resources available to fulfill the request: '' @ location)"
  define create :: collaborator where "create = (\<lambda>i location. Some (msg location))"
  define d where "d = (New \<lparr>WindowsImageTypeLTSC = ''WINDOWS_LTSC'', defaultBoskosLocation = ''http://boskos'',
                  defaultGKEProjectResourceType = ''gke-project'',
                  defaultBoskosAcquireTimeoutSeconds = 300,
                  defaultBoskosHeartbeatIntervalSeconds = 300\<rparr>
               (\<lambda>a b. a @ ''/'' @ b) \<lparr>RunDir = ''/tmp/run''\<rparr>)
             \<lparr>UpOptions := \<lparr>NumClusters = 1, NumNodes = 3, MachineType = ''n1-standard-2'',
                ImageType = ''cos'', WindowsNumNodes = 1, WindowsMachineType = ''n1-standard-2'',
                WindowsImageType = ''WINDOWS_LTSC'', Version = [], GCPSSHKeyIgnored = True,
                BoskosLocation = ''http://boskos'', BoskosResourceType = ''gke-project'',
                BoskosAcquireTimeoutSeconds = 300, BoskosHeartbeatIntervalSeconds = 300,
                BoskosProjectsRequested = 1, RetryableErrorPatterns = [gceStockoutErrorPattern],
                Zones = [''us-central1-a'', ''us-central1-b'', ''us-central1-c''], Regions = []\<rparr>,
              totalTryCount := 2,
              retryableErrorPatternsCompiled := [re]\<rparr>"
  have fields: "Zones (UpOptions d) = [''us-central1-a'', ''us-central1-b'', ''us-central1-c'']"
      "Regions (UpOptions d) = []" "totalTryCount d = 2" "retryableErrorPatternsCompiled d = [re]"
    by (simp_all add: d_def)
  have phrase: "sublist ''does not have enough resources available to fulfill'' (msg location)"
    for location
    unfolding msg_def sublist_def by (metis append_Cons append_Nil)
  have "FindStringSubmatch re (msg location) \<noteq> None" for location
    unfolding re_def using phrase by (rule stockout_matches)
  then have retry: "MatchString re (msg location)" for location
    by (simp add: MatchString_def)
  have two: "runSteps create 2 d = (d\<lparr>retryCount := 1\<rparr>, Attempting)"
    by (simp add: retry fields create_def runSteps_def initial_def numeral_2_eq_2
        VerifyLocationFlags_def locationFlag_def elemAt_def candidates_def)
  have flag: "locationFlag (Regions (UpOptions (fst (runSteps create 2 d))))
      (Zones (UpOptions (fst (runSteps create 2 d))))
      (retryCount (fst (runSteps create 2 d))) = Inr ''--zone=us-central1-b''"
    by (simp add: two fields locationFlag_def elemAt_def)
  have budget: "totalTryCount d \<le> retryCount (fst (runSteps create 2 d)) + 1"
    by (simp add: two fields)
  have total: "0 \<le> totalTryCount d"
    by (simp add: fields)
  have att: "snd (runSteps create 2 d) = Attempting"
    by (simp add: two)
  have fails: "create (retryCount (fst (runSteps create 2 d))) ''--zone=us-central1-b''
      = Some (msg ''--zone=us-central1-b'')"
    by (simp add: create_def)
  from retryCount_within_budget [of create 2 d "''--zone=us-central1-b''"
      "msg ''--zone=us-central1-b''"]
    total att flag fails budget
  have "retryCount (fst (runSteps create 2 d)) \<le> totalTryCount d \<and>
      (\<forall>k. runSteps create (Suc 2 + k) d
         = (fst (runSteps create 2 d), Exhausted (msg ''--zone=us-central1-b'')))"
    by blast
  then have "retryCount (fst (runSteps create 2 d)) = 1 \<and>
      retryCount (fst (runSteps create 2 d)) \<le> totalTryCount d \<and>
      snd (runSteps create 2 d) = Attempting \<and>
      (\<forall>k. snd (runSteps create (Suc 2 + k) d) = Exhausted (msg ''--zone=us-central1-b'')) \<and>
      (\<forall>k. retryCount (fst (runSteps create (Suc 2 + k) d)) = 1)"
    by (simp add: two)
  then show ?thesis
    unfolding Let_def d_def create_def re_def msg_def by simp
qed

end
